theory Spec2Isabelle
  imports Main "HOL-Library.Sublist"
begin

section \<open>Python string primitives used by \<^verbatim>\<open>convert_markdown.py\<close>\<close>

text \<open>
  A Python \<^verbatim>\<open>str\<close> is a sequence of code points; it is modelled as a \<open>string\<close>
  whose elements are read as code points below 256, so \<open>length\<close> and \<open>take\<close> count what
  \<^verbatim>\<open>len\<close> and slicing count. None of the results below depends on the alphabet.
\<close>

text \<open>\<^verbatim>\<open>s.startswith(p)\<close> and \<^verbatim>\<open>s.endswith(p)\<close>.\<close>

definition startswith :: "string \<Rightarrow> string \<Rightarrow> bool" where
  "startswith s p = prefix p s"

definition endswith :: "string \<Rightarrow> string \<Rightarrow> bool" where
  "endswith s p = prefix (rev p) (rev s)"

text \<open>\<^verbatim>\<open>sub in s\<close>: some suffix of \<open>s\<close> starts with \<open>sub\<close>.\<close>

fun contains :: "string \<Rightarrow> string \<Rightarrow> bool" where
  "contains sub [] = (sub = [])"
| "contains sub (c # cs) = (prefix sub (c # cs) \<or> contains sub cs)"

text \<open>
  \<^verbatim>\<open>str.isspace\<close> on one code point below 256: tab, line feed, vertical tab, form feed,
  carriage return, the four separators 0x1C..0x1F, space, NEL (0x85) and the no-break
  space (0xA0).
\<close>

definition isspace :: "char \<Rightarrow> bool" where
  "isspace c = (of_char c \<in> {9, 10, 11, 12, 13, 28, 29, 30, 31, 32, 133, 160 :: nat})"

text \<open>
  \<^verbatim>\<open>s.strip()\<close> and \<^verbatim>\<open>s.strip(chars)\<close> remove, from both ends, the longest run of
  characters that are whitespace, respectively members of \<open>chars\<close>.
\<close>

definition lstrip_by :: "(char \<Rightarrow> bool) \<Rightarrow> string \<Rightarrow> string" where
  "lstrip_by P s = dropWhile P s"

definition rstrip_by :: "(char \<Rightarrow> bool) \<Rightarrow> string \<Rightarrow> string" where
  "rstrip_by P s = rev (dropWhile P (rev s))"

definition strip_by :: "(char \<Rightarrow> bool) \<Rightarrow> string \<Rightarrow> string" where
  "strip_by P s = rstrip_by P (lstrip_by P s)"

definition strip :: "string \<Rightarrow> string" where
  "strip s = strip_by isspace s"

definition strip_chars :: "string \<Rightarrow> string \<Rightarrow> string" where
  "strip_chars chars s = strip_by (\<lambda>c. c \<in> set chars) s"

text \<open>
  \<^verbatim>\<open>s.replace(old, new)\<close> for one-character \<open>old\<close> and \<open>new\<close>, the only form the
  program uses: every occurrence of the character is replaced.
\<close>

definition replace :: "char \<Rightarrow> char \<Rightarrow> string \<Rightarrow> string" where
  "replace old new s = map (\<lambda>c. if c = old then new else c) s"

text \<open>
  \<^verbatim>\<open>s.split(sep)\<close>: the pieces between the non-overlapping occurrences of \<open>sep\<close>, found
  from left to right. \<open>acc\<close> holds the current piece, reversed. Python raises
  \<^verbatim>\<open>ValueError\<close> on an empty separator.
\<close>

datatype error = ValueError | IndexError | ParseError

fun split_from :: "string \<Rightarrow> string \<Rightarrow> string \<Rightarrow> string list" where
  "split_from sep acc [] = [rev acc]"
| "split_from sep acc (c # cs) =
     (if sep \<noteq> [] \<and> prefix sep (c # cs)
      then rev acc # split_from sep [] (drop (length sep) (c # cs))
      else split_from sep (c # acc) cs)"

definition split :: "string \<Rightarrow> string \<Rightarrow> error + string list" where
  "split s sep = (if sep = [] then Inl ValueError else Inr (split_from sep [] s))"

text \<open>\<^verbatim>\<open>xs[i]\<close> for a non-negative index: \<^verbatim>\<open>IndexError\<close> out of range.\<close>

definition index :: "'a list \<Rightarrow> nat \<Rightarrow> error + 'a" where
  "index xs i = (if i < length xs then Inr (xs ! i) else Inl IndexError)"

section \<open>The renderer \<^verbatim>\<open>TEArticleRenderer\<close>\<close>

text \<open>The article dictionary: its eight keys are fixed when it is created.\<close>

record article =
  title :: string
  url :: string
  content :: string
  category :: string
  published_at :: string
  source :: string
  author :: string
  summary :: string

text \<open>
  The renderer's two attributes. \<^verbatim>\<open>current_article\<close> is \<^verbatim>\<open>None\<close> or a dictionary with
  eight keys, so its truth value is whether it is not \<^verbatim>\<open>None\<close>.
\<close>

record renderer =
  current_article :: "article option"
  articles :: "article list"

definition init :: renderer where
  "init = \<lparr>current_article = None, articles = []\<rparr>"

definition origin :: string where
  "origin = ''https://tradingeconomics.com''"

definition link :: "string \<Rightarrow> string \<Rightarrow> renderer \<Rightarrow> renderer" where
  "link text u r =
     (if startswith text ''**'' \<and> endswith text ''**'' then
        r\<lparr>articles := (case current_article r of
                          None \<Rightarrow> articles r
                        | Some a \<Rightarrow> articles r @ [a]),
          current_article := Some
            \<lparr>title = strip_chars ''*'' text,
             url = origin @ u,
             content = '''',
             category = ''Market News'',
             published_at = '''',
             source = ''Trading Economics'',
             author = ''Trading Economics'',
             summary = ''''\<rparr>\<rparr>
      else if contains ''stream?i='' u then
        (case current_article r of
           None \<Rightarrow> r
         | Some a \<Rightarrow>
             r\<lparr>current_article :=
                 Some (a\<lparr>category := replace CHR ''+'' CHR '' '' (strip_chars ''[]'' text)\<rparr>)\<rparr>)
      else r)"

definition paragraph' :: "string \<Rightarrow> renderer \<Rightarrow> renderer" where
  "paragraph' text r =
     (case current_article r of
        None \<Rightarrow> r
      | Some a \<Rightarrow>
          if endswith text ''ago'' then
            r\<lparr>current_article := Some (a\<lparr>published_at := strip text\<rparr>)\<rparr>
          else if \<not> startswith text ''[United States]'' then
            r\<lparr>current_article := Some
                (a\<lparr>content := (if content a \<noteq> [] then content a @ ''\<newline>\<newline>''
                                else content a) @ text\<rparr>)\<rparr>
          else r)"

text \<open>
  (\<open>paragraph\<close> is a reserved word of the prover, hence the prime.)
  The markdown walker (the \<^verbatim>\<open>mistune\<close> library) calls the renderer's methods in
  document order. Only \<^verbatim>\<open>link\<close> and \<^verbatim>\<open>paragraph\<close> are overridden; every other
  method of the HTML renderer leaves the two attributes alone.
\<close>

datatype event = Link string string | Paragraph string | Other

fun handle :: "event \<Rightarrow> renderer \<Rightarrow> renderer" where
  "handle (Link text u) r = link text u r"
| "handle (Paragraph text) r = paragraph' text r"
| "handle Other r = r"

definition walk :: "event list \<Rightarrow> renderer \<Rightarrow> renderer" where
  "walk evs r = foldl (\<lambda>r e. handle e r) r evs"

text \<open>
  \<^verbatim>\<open>get_articles\<close>, in its two parts: the open article is appended, then each article
  of the list gets its summary (from the content as it stands) and its content
  stripped, in this order.
\<close>

definition flush :: "renderer \<Rightarrow> article list" where
  "flush r = (case current_article r of
                None \<Rightarrow> articles r
              | Some a \<Rightarrow> articles r @ [a])"

definition finalize_article :: "article \<Rightarrow> article" where
  "finalize_article a =
     a\<lparr>summary := (if content a \<noteq> [] then take 200 (content a) else ''''),
       content := strip (content a)\<rparr>"

definition finalize :: "article list \<Rightarrow> article list" where
  "finalize ds = map finalize_article ds"

definition get_articles :: "renderer \<Rightarrow> article list" where
  "get_articles r = finalize (flush r)"

section \<open>The entry point \<^verbatim>\<open>convert_markdown_to_articles\<close>\<close>

definition marker :: string where
  "marker = ''- united states\<newline>\<newline>''"

definition skip_navigation :: "string \<Rightarrow> error + string" where
  "skip_navigation markdown_text =
     (if contains marker markdown_text then
        (case split markdown_text marker of
           Inl e \<Rightarrow> Inl e
         | Inr parts \<Rightarrow> index parts 1)
      else Inr markdown_text)"

text \<open>
  The \<^verbatim>\<open>mistune\<close> parser is not part of the repository: \<open>markdown\<close> stands for it, and
  gives the sequence of renderer calls for a text, or fails.
\<close>

definition convert_markdown_to_articles ::
  "(string \<Rightarrow> error + event list) \<Rightarrow> string \<Rightarrow> error + article list" where
  "convert_markdown_to_articles markdown markdown_text =
     (case skip_navigation markdown_text of
        Inl e \<Rightarrow> Inl e
      | Inr text \<Rightarrow>
          (case markdown text of
             Inl e \<Rightarrow> Inl e
           | Inr evs \<Rightarrow> Inr (get_articles (walk evs init))))"

section \<open>Notions used to state the properties\<close>

text \<open>A string is trimmed for \<open>P\<close> when neither its first nor its last character satisfies \<open>P\<close>.\<close>

definition trimmed :: "(char \<Rightarrow> bool) \<Rightarrow> string \<Rightarrow> bool" where
  "trimmed P s = (s = [] \<or> (\<not> P (hd s) \<and> \<not> P (last s)))"

text \<open>The test of \<^verbatim>\<open>link\<close> for a title, and the title links of an event sequence in order.\<close>

definition is_title :: "string \<Rightarrow> bool" where
  "is_title text = (startswith text ''**'' \<and> endswith text ''**'')"

fun title_links :: "event list \<Rightarrow> (string \<times> string) list" where
  "title_links [] = []"
| "title_links (Link text u # evs) =
     (if is_title text then (text, u) # title_links evs else title_links evs)"
| "title_links (Paragraph text # evs) = title_links evs"
| "title_links (Other # evs) = title_links evs"

text \<open>
  The title in the spec's words, "the link text with the bold markers stripped": the text
  without the two-character marker at each end.
\<close>

definition without_bold_markers :: "string \<Rightarrow> string" where
  "without_bold_markers text = butlast (butlast (drop 2 text))"

text \<open>The dictionary that \<^verbatim>\<open>link\<close> creates for a title link.\<close>

definition new_article :: "string \<Rightarrow> string \<Rightarrow> article" where
  "new_article text u =
     \<lparr>title = strip_chars ''*'' text,
      url = origin @ u,
      content = '''',
      category = ''Market News'',
      published_at = '''',
      source = ''Trading Economics'',
      author = ''Trading Economics'',
      summary = ''''\<rparr>"

text \<open>The category that \<^verbatim>\<open>link\<close> derives from the text of a category link.\<close>

definition category_of :: "string \<Rightarrow> string" where
  "category_of text = replace CHR ''+'' CHR '' '' (strip_chars ''[]'' text)"

text \<open>
  Two event sequences used as examples: a title, a body paragraph and an empty paragraph
  (what a paragraph holding only a link renders to, since \<^verbatim>\<open>link\<close> returns the empty
  string); and a title followed by a paragraph of one space.
\<close>

definition trailing_blank_events :: "event list" where
  "trailing_blank_events = [Link ''**T**'' ''/n'', Paragraph ''Body'', Paragraph '''']"

definition blank_only_events :: "event list" where
  "blank_only_events = [Link ''**T**'' ''/n'', Paragraph '' '']"

text \<open>
  A third example: boilerplate, two titles with their bodies, and a link that is neither a
  title nor a category.
\<close>

definition two_titles :: "event list" where
  "two_titles = [Paragraph ''menu'', Link ''**Fed Raises Rates**'' ''/news/1'',
     Paragraph ''Inflation eased in March.'', Link ''more'' ''/more'',
     Link ''**Oil Prices Dip**'' ''/news/2'', Paragraph ''Crude fell 2%.'']"

section \<open>Properties of the string primitives\<close>

lemma endswith_iff_suffix: "endswith s p \<longleftrightarrow> suffix p s"
  by (simp add: endswith_def suffix_to_prefix)

lemma contains_iff_sublist: "contains sub s \<longleftrightarrow> (\<exists>pre post. s = pre @ sub @ post)"
proof (induction s)
  case Nil
  then show ?case by auto
next
  case (Cons c cs)
  show ?case
  proof
    assume "contains sub (c # cs)"
    then consider "prefix sub (c # cs)" | "contains sub cs" by auto
    then show "\<exists>pre post. c # cs = pre @ sub @ post"
    proof cases
      case 1
      then obtain post where "c # cs = sub @ post" by (auto simp: prefix_def)
      then have "c # cs = [] @ sub @ post" by simp
      then show ?thesis by blast
    next
      case 2
      with Cons.IH obtain pre post where "cs = pre @ sub @ post" by blast
      then have "c # cs = (c # pre) @ sub @ post" by simp
      then show ?thesis by blast
    qed
  next
    assume "\<exists>pre post. c # cs = pre @ sub @ post"
    then obtain pre post where eq: "c # cs = pre @ sub @ post" by blast
    show "contains sub (c # cs)"
    proof (cases pre)
      case Nil
      with eq have "prefix sub (c # cs)" by (simp add: prefix_def)
      then show ?thesis by simp
    next
      case (Cons p ps)
      with eq have "cs = ps @ sub @ post" by simp
      with Cons.IH have "contains sub cs" by blast
      then show ?thesis by simp
    qed
  qed
qed

lemma lstrip_by_trimmed: "s = [] \<or> \<not> P (hd s) \<Longrightarrow> lstrip_by P s = s"
  by (cases s) (auto simp: lstrip_by_def)

lemma rstrip_by_trimmed: "s = [] \<or> \<not> P (last s) \<Longrightarrow> rstrip_by P s = s"
  by (cases s rule: rev_cases) (auto simp: rstrip_by_def)

lemma strip_by_trimmed: "trimmed P s \<Longrightarrow> strip_by P s = s"
  by (auto simp: trimmed_def strip_by_def lstrip_by_trimmed rstrip_by_trimmed)

lemma lstrip_by_hd: "lstrip_by P s \<noteq> [] \<Longrightarrow> \<not> P (hd (lstrip_by P s))"
  unfolding lstrip_by_def by (rule hd_dropWhile)

lemma rstrip_by_last: "rstrip_by P s \<noteq> [] \<Longrightarrow> \<not> P (last (rstrip_by P s))"
  unfolding rstrip_by_def using hd_dropWhile[of P "rev s"] by (simp add: last_rev)

lemma rstrip_by_prefix: "prefix (rstrip_by P s) s"
proof -
  have "rev s = takeWhile P (rev s) @ dropWhile P (rev s)" by simp
  then have "s = rev (dropWhile P (rev s)) @ rev (takeWhile P (rev s))"
    by (metis rev_append rev_rev_ident)
  then show ?thesis unfolding rstrip_by_def by (metis prefixI)
qed

lemma rstrip_by_hd:
  assumes "rstrip_by P s \<noteq> []"
  shows "hd (rstrip_by P s) = hd s"
proof -
  obtain zs where "s = rstrip_by P s @ zs"
    using rstrip_by_prefix[of P s] by (auto simp: prefix_def)
  then have "hd s = hd (rstrip_by P s @ zs)" by simp
  also have "\<dots> = hd (rstrip_by P s)" using assms by simp
  finally show ?thesis by simp
qed

lemma strip_by_is_trimmed: "trimmed P (strip_by P s)"
proof (cases "strip_by P s = []")
  case True
  then show ?thesis by (simp add: trimmed_def)
next
  case False
  then have ne: "rstrip_by P (lstrip_by P s) \<noteq> []" by (simp add: strip_by_def)
  then have l: "lstrip_by P s \<noteq> []" by (auto simp: rstrip_by_def)
  from ne have "hd (strip_by P s) = hd (lstrip_by P s)"
    by (simp add: strip_by_def rstrip_by_hd)
  with l have "\<not> P (hd (strip_by P s))" by (simp add: lstrip_by_hd)
  moreover from ne have "\<not> P (last (strip_by P s))"
    by (simp add: strip_by_def rstrip_by_last)
  ultimately show ?thesis by (simp add: trimmed_def)
qed

lemma strip_by_idem: "strip_by P (strip_by P s) = strip_by P s"
  by (rule strip_by_trimmed) (rule strip_by_is_trimmed)

lemma strip_by_empty_iff: "strip_by P s = [] \<longleftrightarrow> (\<forall>c\<in>set s. P c)"
proof -
  have "strip_by P s = [] \<longleftrightarrow> (\<forall>c\<in>set (dropWhile P s). P c)"
    by (simp add: strip_by_def rstrip_by_def lstrip_by_def)
  also have "\<dots> \<longleftrightarrow> dropWhile P s = []"
  proof
    assume all: "\<forall>c\<in>set (dropWhile P s). P c"
    show "dropWhile P s = []"
    proof (rule ccontr)
      assume ne: "dropWhile P s \<noteq> []"
      then have "hd (dropWhile P s) \<in> set (dropWhile P s)" by (rule hd_in_set)
      with all have "P (hd (dropWhile P s))" by blast
      with hd_dropWhile[OF ne] show False by blast
    qed
  next
    assume "dropWhile P s = []"
    then show "\<forall>c\<in>set (dropWhile P s). P c" by (auto dest: set_dropWhileD)
  qed
  also have "\<dots> \<longleftrightarrow> (\<forall>c\<in>set s. P c)" by simp
  finally show ?thesis .
qed

lemma strip_trimmed: "trimmed isspace s \<Longrightarrow> strip s = s"
  by (simp add: strip_def strip_by_trimmed)

lemma strip_idem: "strip (strip s) = strip s"
  by (simp add: strip_def strip_by_idem)

section \<open>Evaluation on concrete inputs\<close>

lemmas string_evals = startswith_def endswith_def strip_def strip_chars_def strip_by_def
  lstrip_by_def rstrip_by_def isspace_def replace_def

lemmas renderer_evals = walk_def init_def link_def paragraph'_def flush_def get_articles_def
  finalize_def finalize_article_def origin_def

lemma trailing_blank_out:
  "get_articles (walk trailing_blank_events init) =
     [\<lparr>title = ''T'', url = ''https://tradingeconomics.com/n'', content = ''Body'',
       category = ''Market News'', published_at = '''', source = ''Trading Economics'',
       author = ''Trading Economics'', summary = ''Body\<newline>\<newline>''\<rparr>]"
  by (simp add: trailing_blank_events_def renderer_evals string_evals)

lemma blank_only_out:
  "get_articles (walk blank_only_events init) =
     [\<lparr>title = ''T'', url = ''https://tradingeconomics.com/n'', content = '''',
       category = ''Market News'', published_at = '''', source = ''Trading Economics'',
       author = ''Trading Economics'', summary = '' ''\<rparr>]"
  by (simp add: blank_only_events_def renderer_evals string_evals)

section \<open>The Finalizer\<close>

lemma summary_finalize_article: "summary (finalize_article d) = take 200 (content d)"
  by (simp add: finalize_article_def)

lemma content_finalize_article: "content (finalize_article d) = strip (content d)"
  by (simp add: finalize_article_def)

lemma finalize_article_trimmed:
  "trimmed isspace (content d) \<Longrightarrow> finalize_article (finalize_article d) = finalize_article d"
  by (simp add: finalize_article_def strip_trimmed)

lemma finalize_article_thrice:
  "finalize_article (finalize_article (finalize_article d)) = finalize_article (finalize_article d)"
  by (simp add: finalize_article_def strip_idem)

text \<open>
  The summary is taken before the content is stripped. After a title, a body paragraph
  and an empty paragraph the output article has content \<open>Body\<close> and a summary that
  keeps the separator, which is neither a prefix of the content nor its first 200
  characters; after a title and a paragraph of one space the content is empty and the
  summary is not.
\<close>

theorem summary_prefix_counterexample:
  "\<not> prefix (summary (hd (get_articles (walk trailing_blank_events init))))
             (content (hd (get_articles (walk trailing_blank_events init))))
   \<and> summary (hd (get_articles (walk trailing_blank_events init)))
       \<noteq> take 200 (content (hd (get_articles (walk trailing_blank_events init))))
   \<and> content (hd (get_articles (walk blank_only_events init))) = []
   \<and> summary (hd (get_articles (walk blank_only_events init))) \<noteq> []"
  by (simp add: trailing_blank_out blank_only_out)

text \<open>
  Claim C3, as the code has it: for every article of the Finalizer's output, the summary
  is the first 200 characters of the draft's content as accumulated, before trimming
  (the empty string when that content is empty), and the content is the draft's content
  stripped. So the summary is a prefix of the untrimmed content, is at most 200
  characters long and is empty exactly when the untrimmed content is empty; it is the
  first 200 characters of the final content whenever the accumulated content has no
  leading or trailing whitespace.
\<close>

theorem summary_of_untrimmed_content:
  assumes "i < length ds"
  shows "summary (finalize ds ! i) = take 200 (content (ds ! i))
       \<and> content (finalize ds ! i) = strip (content (ds ! i))
       \<and> prefix (summary (finalize ds ! i)) (content (ds ! i))
       \<and> length (summary (finalize ds ! i)) \<le> 200
       \<and> (summary (finalize ds ! i) = [] \<longleftrightarrow> content (ds ! i) = [])
       \<and> (trimmed isspace (content (ds ! i)) \<longrightarrow>
            summary (finalize ds ! i) = take 200 (content (finalize ds ! i)))"
  using assms
  by (simp add: finalize_def summary_finalize_article content_finalize_article
      take_is_prefix strip_trimmed)

theorem summary_of_untrimmed_content_witness:
  "summary (finalize [new_article ''**T**'' ''/n''\<lparr>content := ''Body''\<rparr>] ! 0) = ''Body''
   \<and> content (finalize [new_article ''**T**'' ''/n''\<lparr>content := ''Body''\<rparr>] ! 0) = ''Body''
   \<and> trimmed isspace ''Body''"
  using summary_of_untrimmed_content[of 0 "[new_article ''**T**'' ''/n''\<lparr>content := ''Body''\<rparr>]"]
  by (simp add: new_article_def trimmed_def isspace_def string_evals)

text \<open>
  Finalizing the draft of the first example twice does not give what finalizing it once
  gives: the second pass recomputes the summary from the stripped content.
\<close>

theorem finalize_idempotent_counterexample:
  "finalize (finalize (flush (walk trailing_blank_events init)))
     \<noteq> finalize (flush (walk trailing_blank_events init))"
  by (simp add: trailing_blank_events_def renderer_evals string_evals)

text \<open>
  Claim C4, as the code has it: for every draft list, finalizing twice leaves the content
  of every article as finalizing once left it (re-trimming changes nothing), and the
  recomputed summary is the first 200 characters of the trimmed content; the Finalizer
  is idempotent from its second application on, and applying it twice equals applying
  it once on every draft list whose contents have no leading or trailing whitespace.
\<close>

theorem finalize_twice:
  "map content (finalize (finalize ds)) = map content (finalize ds)
   \<and> map summary (finalize (finalize ds)) = map (\<lambda>a. take 200 (content a)) (finalize ds)
   \<and> finalize (finalize (finalize ds)) = finalize (finalize ds)
   \<and> ((\<forall>d\<in>set ds. trimmed isspace (content d)) \<longrightarrow> finalize (finalize ds) = finalize ds)"
  by (simp add: finalize_def finalize_article_thrice finalize_article_trimmed
      summary_finalize_article content_finalize_article strip_idem)

theorem finalize_twice_witness:
  "trimmed isspace (content (new_article ''**T**'' ''/n''\<lparr>content := ''Body''\<rparr>))
   \<and> finalize (finalize [new_article ''**T**'' ''/n''\<lparr>content := ''Body''\<rparr>])
       = finalize [new_article ''**T**'' ''/n''\<lparr>content := ''Body''\<rparr>]"
  using finalize_twice[of "[new_article ''**T**'' ''/n''\<lparr>content := ''Body''\<rparr>]"]
  by (simp add: new_article_def trimmed_def isspace_def)

text \<open>
  Claim C7: for every draft list the Finalizer returns a list of the same length whose
  articles have, position by position, the title, url, category, published_at, source
  and author of the drafts: nothing is dropped or reordered, and only summary and
  content are rewritten.
\<close>

theorem finalize_frame:
  "length (finalize ds) = length ds
   \<and> map title (finalize ds) = map title ds
   \<and> map url (finalize ds) = map url ds
   \<and> map category (finalize ds) = map category ds
   \<and> map published_at (finalize ds) = map published_at ds
   \<and> map source (finalize ds) = map source ds
   \<and> map author (finalize ds) = map author ds"
  by (simp add: finalize_def finalize_article_def)

section \<open>The Splitter: links\<close>

lemma strip_by_wrapped:
  assumes "\<forall>c\<in>set pre. P c" and "\<forall>c\<in>set post. P c"
    and "t \<noteq> []" and "\<not> P (hd t)" and "\<not> P (last t)"
  shows "strip_by P (pre @ t @ post) = t"
proof -
  have "dropWhile P (pre @ t @ post) = dropWhile P (t @ post)"
    using assms(1) by (simp add: dropWhile_append2)
  also have "\<dots> = t @ post"
    using assms(3,4) by (cases t) simp_all
  finally have l: "lstrip_by P (pre @ t @ post) = t @ post"
    by (simp add: lstrip_by_def)
  have "dropWhile P (rev (t @ post)) = dropWhile P (rev post @ rev t)" by simp
  also have "\<dots> = dropWhile P (rev t)"
  proof (rule dropWhile_append2)
    fix c assume "c \<in> set (rev post)"
    with assms(2) show "P c" by simp
  qed
  also have "\<dots> = rev t"
    using assms(3,5) by (cases t rule: rev_cases) simp_all
  finally have "rstrip_by P (t @ post) = t"
    by (simp add: rstrip_by_def)
  with l show ?thesis by (simp add: strip_by_def)
qed

lemma strip_chars_empty_iff: "strip_chars chars s = [] \<longleftrightarrow> (\<forall>c\<in>set s. c \<in> set chars)"
  by (simp add: strip_chars_def strip_by_empty_iff)

lemma link_title:
  "is_title text \<Longrightarrow>
   link text u r = \<lparr>current_article = Some (new_article text u), articles = flush r\<rparr>"
  by (simp add: link_def is_title_def new_article_def flush_def split: option.splits)

lemma link_category_open:
  "\<not> is_title text \<Longrightarrow> contains ''stream?i='' u \<Longrightarrow> current_article r = Some a \<Longrightarrow>
   link text u r = r\<lparr>current_article := Some (a\<lparr>category := category_of text\<rparr>)\<rparr>"
  by (auto simp: link_def is_title_def category_of_def)

lemma link_category_closed:
  "\<not> is_title text \<Longrightarrow> current_article r = None \<Longrightarrow> link text u r = r"
  by (auto simp: link_def is_title_def)

lemma link_ignored:
  "\<not> is_title text \<Longrightarrow> \<not> contains ''stream?i='' u \<Longrightarrow> link text u r = r"
  by (auto simp: link_def is_title_def)

lemma articles_link: "\<not> is_title text \<Longrightarrow> articles (link text u r) = articles r"
  by (auto simp: link_def is_title_def split: option.splits)

lemma articles_paragraph: "articles (paragraph' text r) = articles r"
  by (simp add: paragraph'_def split: option.splits)

lemma walk_Nil: "walk [] r = r"
  by (simp add: walk_def)

lemma walk_Cons: "walk (e # evs) r = walk evs (handle e r)"
  by (simp add: walk_def)

lemma walk_append: "walk (evs @ evs') r = walk evs' (walk evs r)"
  by (simp add: walk_def)

lemma flush_record:
  "flush \<lparr>current_article = None, articles = xs\<rparr> = xs"
  "flush \<lparr>current_article = Some a, articles = xs\<rparr> = xs @ [a]"
  by (simp_all add: flush_def)

lemma flush_init: "flush init = []"
  by (simp add: flush_def init_def)

text \<open>
  What one event adds to the titles and urls of the drafts.
\<close>

lemma flush_handle:
  "map (\<lambda>a. (title a, url a)) (flush (handle e r)) =
   map (\<lambda>a. (title a, url a)) (flush r) @
   map (\<lambda>(text, u). (strip_chars ''*'' text, origin @ u)) (title_links [e])"
proof (cases e)
  case (Link t u)
  show ?thesis
  proof (cases "is_title t")
    case True
    then show ?thesis
      by (simp add: Link link_title flush_def new_article_def split: option.splits)
  next
    case False
    then show ?thesis
      by (auto simp: Link link_def is_title_def flush_def split: option.splits)
  qed
next
  case (Paragraph t)
  then show ?thesis
    by (simp add: paragraph'_def flush_def split: option.splits)
next
  case Other
  then show ?thesis by simp
qed

lemma title_links_Cons: "title_links (e # evs) = title_links [e] @ title_links evs"
  by (cases e) simp_all

lemma flush_walk:
  "map (\<lambda>a. (title a, url a)) (flush (walk evs r)) =
   map (\<lambda>a. (title a, url a)) (flush r) @
   map (\<lambda>(text, u). (strip_chars ''*'' text, origin @ u)) (title_links evs)"
proof (induction evs arbitrary: r)
  case Nil
  then show ?case by (simp add: walk_Nil)
next
  case (Cons e evs)
  have "map (\<lambda>a. (title a, url a)) (flush (walk (e # evs) r)) =
        map (\<lambda>a. (title a, url a)) (flush (handle e r)) @
        map (\<lambda>(text, u). (strip_chars ''*'' text, origin @ u)) (title_links evs)"
    by (simp only: walk_Cons Cons.IH)
  also have "\<dots> = map (\<lambda>a. (title a, url a)) (flush r) @
        map (\<lambda>(text, u). (strip_chars ''*'' text, origin @ u)) (title_links (e # evs))"
    by (subst title_links_Cons[of e evs]) (simp only: flush_handle map_append append_assoc)
  finally show ?case .
qed

lemma drafts_title_url:
  "map (\<lambda>a. (title a, url a)) (flush (walk evs init)) =
   map (\<lambda>(text, u). (strip_chars ''*'' text, origin @ u)) (title_links evs)"
  by (simp add: flush_walk flush_init)

lemma drafts_titles:
  "map title (flush (walk evs init)) = map (\<lambda>(text, u). strip_chars ''*'' text) (title_links evs)"
proof -
  have "map title (flush (walk evs init)) = map fst (map (\<lambda>a. (title a, url a)) (flush (walk evs init)))"
    by simp
  also have "\<dots> = map (\<lambda>(text, u). strip_chars ''*'' text) (title_links evs)"
    by (simp only: drafts_title_url) (simp add: case_prod_beta)
  finally show ?thesis .
qed

lemma drafts_urls:
  "map url (flush (walk evs init)) = map (\<lambda>(text, u). origin @ u) (title_links evs)"
proof -
  have "map url (flush (walk evs init)) = map snd (map (\<lambda>a. (title a, url a)) (flush (walk evs init)))"
    by simp
  also have "\<dots> = map (\<lambda>(text, u). origin @ u) (title_links evs)"
    by (simp only: drafts_title_url) (simp add: case_prod_beta)
  finally show ?thesis .
qed

lemma drafts_length: "length (flush (walk evs init)) = length (title_links evs)"
  using arg_cong[OF drafts_titles, of length evs] by simp

text \<open>
  A title link whose text has a third asterisk at each end: the title stored is \<open>T\<close>,
  while the text without the two markers is \<open>*T*\<close>.
\<close>

theorem title_extra_asterisk_counterexample:
  "is_title ''***T***''
   \<and> map title (flush (walk [Link ''***T***'' ''/n''] init)) = [''T'']
   \<and> without_bold_markers ''***T***'' = ''*T*''
   \<and> map title (flush (walk [Link ''***T***'' ''/n''] init)) \<noteq> [without_bold_markers ''***T***'']"
  by (simp add: is_title_def without_bold_markers_def renderer_evals string_evals)

text \<open>
  Claim C1, as the code has it: the drafts the Splitter gives for an event sequence are as
  many as its title links (the links whose text starts and ends with \<open>**\<close>), in their
  order; the title of each is the link text without all of its leading and trailing
  asterisks, which is the text between the two markers when that text is not empty and
  neither starts nor ends with an asterisk; its url is the origin followed by the raw
  link target. A title link stores the open article, if any, in the list and opens the
  draft with the default fields; no other event changes the list; at the end of the input
  the open article is appended.
\<close>

theorem splitter_title_links:
  "length (flush (walk evs init)) = length (title_links evs)
   \<and> map title (flush (walk evs init)) = map (\<lambda>(text, u). strip_chars ''*'' text) (title_links evs)
   \<and> map url (flush (walk evs init)) = map (\<lambda>(text, u). origin @ u) (title_links evs)
   \<and> (is_title text \<longrightarrow>
        link text u r = \<lparr>current_article = Some (new_article text u), articles = flush r\<rparr>)
   \<and> (\<not> (\<exists>text u. e = Link text u \<and> is_title text) \<longrightarrow> articles (handle e r) = articles r)
   \<and> flush r = articles r @ (case current_article r of None \<Rightarrow> [] | Some a \<Rightarrow> [a])
   \<and> (t \<noteq> [] \<and> hd t \<noteq> CHR ''*'' \<and> last t \<noteq> CHR ''*'' \<longrightarrow>
        is_title (''**'' @ t @ ''**'') \<and> strip_chars ''*'' (''**'' @ t @ ''**'') = t
        \<and> without_bold_markers (''**'' @ t @ ''**'') = t)"
proof -
  have "\<not> (\<exists>text u. e = Link text u \<and> is_title text) \<longrightarrow> articles (handle e r) = articles r"
    by (cases e) (simp_all add: articles_link articles_paragraph)
  moreover have "flush r = articles r @ (case current_article r of None \<Rightarrow> [] | Some a \<Rightarrow> [a])"
    by (simp add: flush_def split: option.splits)
  moreover have "t \<noteq> [] \<and> hd t \<noteq> CHR ''*'' \<and> last t \<noteq> CHR ''*'' \<longrightarrow>
      is_title (''**'' @ t @ ''**'') \<and> strip_chars ''*'' (''**'' @ t @ ''**'') = t
      \<and> without_bold_markers (''**'' @ t @ ''**'') = t"
  proof (intro impI conjI)
    assume h: "t \<noteq> [] \<and> hd t \<noteq> CHR ''*'' \<and> last t \<noteq> CHR ''*''"
    show "is_title (''**'' @ t @ ''**'')"
      by (simp add: is_title_def startswith_def endswith_def)
    show "strip_chars ''*'' (''**'' @ t @ ''**'') = t"
      unfolding strip_chars_def using h by (intro strip_by_wrapped) simp_all
    show "without_bold_markers (''**'' @ t @ ''**'') = t"
      by (simp add: without_bold_markers_def butlast_append)
  qed
  ultimately show ?thesis
    using drafts_length drafts_titles drafts_urls link_title by blast
qed

theorem splitter_title_links_witness:
  "is_title ''**Oil Prices Dip**''
   \<and> link ''**Oil Prices Dip**'' ''/news/2''
        \<lparr>current_article = Some (new_article ''**Fed Raises Rates**'' ''/news/1''), articles = []\<rparr>
       = \<lparr>current_article = Some (new_article ''**Oil Prices Dip**'' ''/news/2''),
          articles = [new_article ''**Fed Raises Rates**'' ''/news/1'']\<rparr>
   \<and> \<not> (\<exists>t u. Paragraph ''Crude fell 2%.'' = Link t u \<and> is_title t)
   \<and> articles (handle (Paragraph ''Crude fell 2%.'')
        \<lparr>current_article = Some (new_article ''**Oil Prices Dip**'' ''/news/2''),
          articles = [new_article ''**Fed Raises Rates**'' ''/news/1'']\<rparr>)
       = [new_article ''**Fed Raises Rates**'' ''/news/1'']
   \<and> strip_chars ''*'' ''**Oil Prices Dip**'' = ''Oil Prices Dip''
   \<and> without_bold_markers ''**Oil Prices Dip**'' = ''Oil Prices Dip''
   \<and> length (flush (walk two_titles init)) = 2
   \<and> map title (flush (walk two_titles init)) = [''Fed Raises Rates'', ''Oil Prices Dip'']
   \<and> map url (flush (walk two_titles init))
       = [''https://tradingeconomics.com/news/1'', ''https://tradingeconomics.com/news/2'']"
proof -
  have ev: "is_title ''**Oil Prices Dip**''"
    "strip_chars ''*'' ''**Oil Prices Dip**'' = ''Oil Prices Dip''"
    "without_bold_markers ''**Oil Prices Dip**'' = ''Oil Prices Dip''"
    "strip_chars ''*'' ''**Fed Raises Rates**'' = ''Fed Raises Rates''"
    by (simp_all add: is_title_def without_bold_markers_def string_evals)
  show ?thesis
    using ev splitter_title_links[of two_titles "''**Oil Prices Dip**''" "''/news/2''"
      "\<lparr>current_article = Some (new_article ''**Fed Raises Rates**'' ''/news/1''), articles = []\<rparr>"
      "Paragraph ''Crude fell 2%.''" "''Oil Prices Dip''"]
    by (simp add: two_titles_def is_title_def flush_record string_evals origin_def
        articles_paragraph without_bold_markers_def)
qed

section \<open>The Splitter: paragraphs\<close>

text \<open>
  Claim C2: a paragraph changes nothing while no article is open. Otherwise exactly one
  of three cases applies. A text ending in \<open>ago\<close> sets published_at, whatever it held, to
  the stripped text and leaves the content alone; the stripped text is the text without
  its leading whitespace (it has none at the end), so it still ends in \<open>ago\<close> and does not
  start with whitespace. Else a text starting with \<open>[United States]\<close> changes nothing. Else
  the text is appended to the content, after a blank-line separator exactly when the
  content was not empty. The list of stored articles is never touched.
\<close>

theorem paragraph_buckets:
  "(current_article r = None \<longrightarrow> paragraph' text r = r)
   \<and> (current_article r = Some a \<and> suffix ''ago'' text \<longrightarrow>
        paragraph' text r = r\<lparr>current_article := Some (a\<lparr>published_at := strip text\<rparr>)\<rparr>
        \<and> strip text = dropWhile isspace text
        \<and> text = takeWhile isspace text @ strip text
        \<and> suffix ''ago'' (strip text)
        \<and> \<not> isspace (hd (strip text)))
   \<and> (current_article r = Some a \<and> \<not> suffix ''ago'' text \<and> prefix ''[United States]'' text \<longrightarrow>
        paragraph' text r = r)
   \<and> (current_article r = Some a \<and> \<not> suffix ''ago'' text \<and> \<not> prefix ''[United States]'' text \<longrightarrow>
        paragraph' text r =
          r\<lparr>current_article := Some
              (a\<lparr>content := (if content a = [] then text
                              else content a @ ''\<newline>\<newline>'' @ text)\<rparr>)\<rparr>)
   \<and> articles (paragraph' text r) = articles r"
proof -
  have "current_article r = Some a \<and> suffix ''ago'' text \<longrightarrow>
        paragraph' text r = r\<lparr>current_article := Some (a\<lparr>published_at := strip text\<rparr>)\<rparr>
        \<and> strip text = dropWhile isspace text
        \<and> text = takeWhile isspace text @ strip text
        \<and> suffix ''ago'' (strip text)
        \<and> \<not> isspace (hd (strip text))"
  proof (intro impI)
    assume h: "current_article r = Some a \<and> suffix ''ago'' text"
    then obtain v where v: "text = v @ ''ago''" by (auto simp: suffix_def)
    have na: "\<not> isspace CHR ''a''" and no: "\<not> isspace CHR ''o''"
      by (simp_all add: isspace_def)
    have d: "dropWhile isspace text = dropWhile isspace v @ ''ago''"
      unfolding v using na by (simp add: dropWhile_append)
    then have ne: "dropWhile isspace text \<noteq> []"
      and l: "last (dropWhile isspace text) = CHR ''o''"
      by simp_all
    from l no have "rstrip_by isspace (dropWhile isspace text) = dropWhile isspace text"
      by (simp add: rstrip_by_trimmed)
    then have eq: "strip text = dropWhile isspace text"
      by (simp add: strip_def strip_by_def lstrip_by_def)
    have "suffix ''ago'' (strip text)" unfolding eq d by (simp add: suffix_def)
    moreover have "\<not> isspace (hd (strip text))" unfolding eq using ne by (rule hd_dropWhile)
    moreover have "text = takeWhile isspace text @ strip text" by (simp add: eq)
    moreover have "paragraph' text r =
        r\<lparr>current_article := Some (a\<lparr>published_at := strip text\<rparr>)\<rparr>"
      using h by (simp add: paragraph'_def endswith_iff_suffix)
    ultimately show "paragraph' text r =
        r\<lparr>current_article := Some (a\<lparr>published_at := strip text\<rparr>)\<rparr>
        \<and> strip text = dropWhile isspace text
        \<and> text = takeWhile isspace text @ strip text
        \<and> suffix ''ago'' (strip text)
        \<and> \<not> isspace (hd (strip text))"
      using eq by blast
  qed
  moreover have "current_article r = None \<longrightarrow> paragraph' text r = r"
    by (simp add: paragraph'_def)
  moreover have "current_article r = Some a \<and> \<not> suffix ''ago'' text
        \<and> prefix ''[United States]'' text \<longrightarrow> paragraph' text r = r"
    by (simp add: paragraph'_def endswith_iff_suffix startswith_def)
  moreover have "current_article r = Some a \<and> \<not> suffix ''ago'' text
        \<and> \<not> prefix ''[United States]'' text \<longrightarrow>
        paragraph' text r =
          r\<lparr>current_article := Some
              (a\<lparr>content := (if content a = [] then text
                              else content a @ ''\<newline>\<newline>'' @ text)\<rparr>)\<rparr>"
    by (simp add: paragraph'_def endswith_iff_suffix startswith_def)
  moreover have "articles (paragraph' text r) = articles r"
    by (simp add: paragraph'_def split: option.splits)
  ultimately show ?thesis by blast
qed

theorem paragraph_buckets_witness:
  "paragraph' ''menu'' init = init
   \<and> suffix ''ago'' ''\<newline>  3 hours ago''
   \<and> paragraph' ''\<newline>  3 hours ago''
         \<lparr>current_article = Some (new_article ''**T**'' ''/n''\<lparr>published_at := ''1 day ago''\<rparr>),
           articles = []\<rparr>
       = \<lparr>current_article = Some (new_article ''**T**'' ''/n''\<lparr>published_at := ''3 hours ago''\<rparr>),
          articles = []\<rparr>
   \<and> strip ''\<newline>  3 hours ago'' = ''3 hours ago''
   \<and> \<not> suffix ''ago'' ''[United States] ignore this''
   \<and> prefix ''[United States]'' ''[United States] ignore this''
   \<and> paragraph' ''[United States] ignore this''
         \<lparr>current_article = Some (new_article ''**T**'' ''/n''), articles = []\<rparr>
       = \<lparr>current_article = Some (new_article ''**T**'' ''/n''), articles = []\<rparr>
   \<and> \<not> suffix ''ago'' ''Crude fell 2%.''
   \<and> \<not> prefix ''[United States]'' ''Crude fell 2%.''
   \<and> paragraph' ''Crude fell 2%.''
         \<lparr>current_article = Some (new_article ''**T**'' ''/n''\<lparr>content := ''Oil dipped.''\<rparr>),
           articles = []\<rparr>
       = \<lparr>current_article = Some (new_article ''**T**'' ''/n''
            \<lparr>content := ''Oil dipped.\<newline>\<newline>Crude fell 2%.''\<rparr>), articles = []\<rparr>"
proof -
  have ev: "strip ''\<newline>  3 hours ago'' = ''3 hours ago''"
    by (simp add: string_evals)
  show ?thesis
    using ev paragraph_buckets[of init "''menu''"]
      paragraph_buckets[of "\<lparr>current_article = Some (new_article ''**T**'' ''/n''\<lparr>published_at := ''1 day ago''\<rparr>), articles = []\<rparr>"
        "''\<newline>  3 hours ago''" "new_article ''**T**'' ''/n''\<lparr>published_at := ''1 day ago''\<rparr>"]
      paragraph_buckets[of "\<lparr>current_article = Some (new_article ''**T**'' ''/n''), articles = []\<rparr>"
        "''[United States] ignore this''" "new_article ''**T**'' ''/n''"]
      paragraph_buckets[of "\<lparr>current_article = Some (new_article ''**T**'' ''/n''\<lparr>content := ''Oil dipped.''\<rparr>), articles = []\<rparr>"
        "''Crude fell 2%.''" "new_article ''**T**'' ''/n''\<lparr>content := ''Oil dipped.''\<rparr>"]
    by (simp add: init_def new_article_def suffix_to_prefix string_evals)
qed

section \<open>The Splitter: category links\<close>

lemma category_of_no_plus: "CHR ''+'' \<notin> set (category_of t)"
  by (auto simp: category_of_def replace_def)

text \<open>
  Claim C6: a link whose text is not a title and whose url contains \<open>stream?i=\<close> sets the
  category of the open article to the link text without its leading and trailing
  brackets and with every \<open>+\<close> replaced by a space; a later such link overwrites the
  category; with no article open the link changes nothing.
\<close>

theorem category_link:
  assumes "\<not> is_title text" and "contains ''stream?i='' u"
  shows "(current_article r = Some a \<longrightarrow>
           link text u r = r\<lparr>current_article := Some
             (a\<lparr>category := replace CHR ''+'' CHR '' '' (strip_chars ''[]'' text)\<rparr>)\<rparr>)
       \<and> (current_article r = None \<longrightarrow> link text u r = r)
       \<and> (\<not> is_title text' \<and> contains ''stream?i='' u' \<longrightarrow>
            link text' u' (link text u r) = link text' u' r)
       \<and> CHR ''+'' \<notin> set (replace CHR ''+'' CHR '' '' (strip_chars ''[]'' text))"
proof -
  have "\<not> is_title text' \<and> contains ''stream?i='' u' \<longrightarrow>
        link text' u' (link text u r) = link text' u' r"
    using assms by (cases "current_article r") (auto simp: link_def is_title_def)
  moreover have "CHR ''+'' \<notin> set (replace CHR ''+'' CHR '' '' (strip_chars ''[]'' text))"
    using category_of_no_plus by (simp add: category_of_def)
  ultimately show ?thesis
    using assms link_category_open link_category_closed
    by (simp add: category_of_def)
qed

theorem category_link_witness:
  "\<not> is_title ''[United+States]''
   \<and> contains ''stream?i='' ''/stream?i=5''
   \<and> link ''[United+States]'' ''/stream?i=5''
        \<lparr>current_article = Some (new_article ''**T**'' ''/n''), articles = []\<rparr>
       = \<lparr>current_article = Some (new_article ''**T**'' ''/n''\<lparr>category := ''United States''\<rparr>),
          articles = []\<rparr>
   \<and> link ''[United+States]'' ''/stream?i=5'' init = init
   \<and> \<not> is_title ''[Euro Area]''
   \<and> link ''[Euro Area]'' ''/stream?i=7'' (link ''[United+States]'' ''/stream?i=5''
        \<lparr>current_article = Some (new_article ''**T**'' ''/n''), articles = []\<rparr>)
       = \<lparr>current_article = Some (new_article ''**T**'' ''/n''\<lparr>category := ''Euro Area''\<rparr>),
          articles = []\<rparr>"
  using category_link[of "''[United+States]''" "''/stream?i=5''"
      "\<lparr>current_article = Some (new_article ''**T**'' ''/n''), articles = []\<rparr>"
      "new_article ''**T**'' ''/n''" "''[Euro Area]''" "''/stream?i=7''"]
    category_link[of "''[United+States]''" "''/stream?i=5''" init]
  by (simp add: is_title_def init_def new_article_def string_evals link_def)

section \<open>Titles and urls of the output\<close>

lemma title_finalize: "map title (finalize ds) = map title ds"
  by (simp add: finalize_def finalize_article_def)

lemma url_finalize: "map url (finalize ds) = map url ds"
  by (simp add: finalize_def finalize_article_def)

lemma output_titles:
  "map title (get_articles (walk evs init)) =
   map (\<lambda>(text, u). strip_chars ''*'' text) (title_links evs)"
  by (simp add: get_articles_def title_finalize drafts_titles)

lemma output_urls:
  "map url (get_articles (walk evs init)) = map (\<lambda>(text, u). origin @ u) (title_links evs)"
  by (simp add: get_articles_def url_finalize drafts_urls)

lemma convert_Inr:
  assumes "convert_markdown_to_articles markdown md = Inr out"
  shows "\<exists>t evs. skip_navigation md = Inr t \<and> markdown t = Inr evs
           \<and> out = get_articles (walk evs init)"
  using assms by (auto simp: convert_markdown_to_articles_def split: sum.splits)

text \<open>
  A title link whose text is four asterisks gives one article, with an empty title.
\<close>

theorem empty_title_counterexample:
  "length (get_articles (walk [Link ''****'' ''/news/1''] init)) = 1
   \<and> title (hd (get_articles (walk [Link ''****'' ''/news/1''] init))) = []"
  by (simp add: renderer_evals string_evals)

text \<open>
  Claim C9, as the code has it: the titles of the output are all non-empty exactly when
  the text of every title link holds a character other than the asterisk; a title link
  made of asterisks only gives an article with an empty title.
\<close>

theorem title_nonempty_iff:
  "(\<forall>a\<in>set (get_articles (walk evs init)). title a \<noteq> []) \<longleftrightarrow>
   (\<forall>(text, u)\<in>set (title_links evs). \<exists>c\<in>set text. c \<noteq> CHR ''*'')"
proof -
  have "(\<forall>a\<in>set (get_articles (walk evs init)). title a \<noteq> []) \<longleftrightarrow>
        (\<forall>t\<in>set (map title (get_articles (walk evs init))). t \<noteq> [])"
    by simp
  also have "\<dots> \<longleftrightarrow> (\<forall>(text, u)\<in>set (title_links evs). strip_chars ''*'' text \<noteq> [])"
    by (simp only: output_titles) auto
  also have "\<dots> \<longleftrightarrow> (\<forall>(text, u)\<in>set (title_links evs). \<exists>c\<in>set text. c \<noteq> CHR ''*'')"
    by (simp add: strip_chars_empty_iff)
  finally show ?thesis .
qed

theorem title_nonempty_iff_witness:
  "title_links two_titles = [(''**Fed Raises Rates**'', ''/news/1''), (''**Oil Prices Dip**'', ''/news/2'')]
   \<and> map title (get_articles (walk two_titles init)) = [''Fed Raises Rates'', ''Oil Prices Dip'']"
  using title_nonempty_iff[of two_titles]
  by (simp add: two_titles_def is_title_def renderer_evals string_evals)

text \<open>
  Claim C10: the url of every article of the output starts with the origin, which is put
  before the raw target of the title link whatever that target is, an absolute URL
  included.
\<close>

theorem url_starts_with_origin:
  "(convert_markdown_to_articles markdown md = Inr out \<longrightarrow>
      (\<forall>a\<in>set out. prefix origin (url a)))
   \<and> map url (get_articles (walk evs init)) = map (\<lambda>(text, u). origin @ u) (title_links evs)"
proof -
  have "\<forall>a\<in>set (get_articles (walk evs' init)). prefix origin (url a)" for evs'
  proof
    fix a assume "a \<in> set (get_articles (walk evs' init))"
    then have "url a \<in> set (map url (get_articles (walk evs' init)))" by simp
    then show "prefix origin (url a)" by (simp only: output_urls) auto
  qed
  then show ?thesis using convert_Inr[of markdown md out] output_urls by blast
qed

theorem url_starts_with_origin_witness:
  "convert_markdown_to_articles (\<lambda>t. Inr [Link ''**T**'' ''https://example.com/a'']) ''x''
     = Inr [\<lparr>title = ''T'', url = ''https://tradingeconomics.comhttps://example.com/a'',
             content = '''', category = ''Market News'', published_at = '''',
             source = ''Trading Economics'', author = ''Trading Economics'', summary = ''''\<rparr>]
   \<and> prefix origin ''https://tradingeconomics.comhttps://example.com/a''"
  using url_starts_with_origin[of "\<lambda>t. Inr [Link ''**T**'' ''https://example.com/a'']" "''x''"
      "[\<lparr>title = ''T'', url = ''https://tradingeconomics.comhttps://example.com/a'',
             content = '''', category = ''Market News'', published_at = '''',
             source = ''Trading Economics'', author = ''Trading Economics'', summary = ''''\<rparr>]"]
  by (simp add: convert_markdown_to_articles_def skip_navigation_def marker_def
      renderer_evals string_evals)

section \<open>Input normalization and the empty result\<close>

lemma split_from_nonempty: "split_from sep acc s \<noteq> []"
  by (induction s arbitrary: acc) auto

lemma split_from_two:
  "sep \<noteq> [] \<Longrightarrow> contains sep s \<Longrightarrow> 2 \<le> length (split_from sep acc s)"
proof (induction s arbitrary: acc)
  case Nil
  then show ?case by simp
next
  case (Cons c cs)
  show ?case
  proof (cases "prefix sep (c # cs)")
    case True
    have "split_from sep [] (drop (length sep) (c # cs)) \<noteq> []" by (rule split_from_nonempty)
    then have "1 \<le> length (split_from sep [] (drop (length sep) (c # cs)))"
      by (simp add: Suc_le_eq)
    with True Cons.prems(1) show ?thesis by simp
  next
    case False
    with Cons.prems have "contains sep cs" by simp
    with Cons.IH Cons.prems(1) have "2 \<le> length (split_from sep (c # acc) cs)" by blast
    with False show ?thesis by simp
  qed
qed

lemma skip_navigation_total: "\<exists>t. skip_navigation md = Inr t"
proof (cases "contains marker md")
  case True
  have "marker \<noteq> []" by (simp add: marker_def)
  from this True have "2 \<le> length (split_from marker [] md)" by (rule split_from_two)
  with True \<open>marker \<noteq> []\<close> show ?thesis
    by (simp add: skip_navigation_def split_def index_def)
next
  case False
  then show ?thesis by (simp add: skip_navigation_def)
qed

lemma skip_navigation_absent: "\<not> contains marker md \<Longrightarrow> skip_navigation md = Inr md"
  by (simp add: skip_navigation_def)

text \<open>
  Claim C5 asks that everything after the first marker is kept. With two markers in the
  text the program keeps only what lies between the first and the second: the element
  of index 1 of a split on every occurrence.
\<close>

theorem skip_navigation_second_marker:
  "skip_navigation ''menu- united states\<newline>\<newline>first- united states\<newline>\<newline>second'' = Inr ''first''
   \<and> contains marker ''menu- united states\<newline>\<newline>first- united states\<newline>\<newline>second''"
  by (simp add: skip_navigation_def marker_def split_def index_def)

text \<open>
  Claim C8: skipping the navigation never fails, and when the parser gives an event
  sequence without a title link for the remaining text, the conversion returns the empty
  list, not an error.
\<close>

theorem no_title_link_gives_empty:
  "\<exists>t. skip_navigation md = Inr t \<and>
       (\<forall>evs. markdown t = Inr evs \<and> title_links evs = [] \<longrightarrow>
          convert_markdown_to_articles markdown md = Inr [])"
proof -
  obtain t where t: "skip_navigation md = Inr t" using skip_navigation_total by blast
  have "convert_markdown_to_articles markdown md = Inr []"
    if "markdown t = Inr evs" and "title_links evs = []" for evs
  proof -
    have "length (get_articles (walk evs init)) = 0"
      using that(2) arg_cong[OF output_titles, of length evs] by simp
    then show ?thesis
      using t that(1) by (simp add: convert_markdown_to_articles_def)
  qed
  with t show ?thesis by blast
qed

theorem no_title_link_gives_empty_witness:
  "skip_navigation ''plain text'' = Inr ''plain text''
   \<and> title_links [Paragraph ''plain text'', Link ''more'' ''/more''] = []
   \<and> convert_markdown_to_articles (\<lambda>t. Inr [Paragraph t, Link ''more'' ''/more'']) ''plain text'' = Inr []"
  using no_title_link_gives_empty[of "''plain text''" "\<lambda>t. Inr [Paragraph t, Link ''more'' ''/more'']"]
  by (simp add: skip_navigation_def marker_def is_title_def string_evals)

end
